theory Spec2Isabelle
  imports Complex_Main "HOL-Library.Multiset"
begin

section \<open>Data model\<close>

text \<open>
  The processors of \<^verbatim>\<open>processor/dataprocessor.py\<close> work on pandas DataFrames. A cell is a
  missing marker (\<^verbatim>\<open>np.nan\<close>), a number or a string; a frame is its list of column labels
  and its rows, one cell per column. Frames built by pandas are rectangular; a read beyond
  the end of a row is read as the missing marker.
\<close>

datatype cell = NaN | Num real | Str string

type_synonym row = "cell list"

record dataframe =
  columns :: "string list"
  rows :: "row list"

text \<open>
  Exceptions are values. All of them are instances of Python's \<^verbatim>\<open>Exception\<close>, which is
  what the handlers of \<^verbatim>\<open>read\<close> catch; \<open>LibraryError\<close> stands for whatever the pandas
  parser raises (ParserError, EmptyDataError, FileNotFoundError, UnicodeDecodeError).
\<close>

datatype exn =
    AttributeError string
  | KeyError string
  | TypeError string
  | ValueError string
  | LibraryError string

fun str_exn :: "exn \<Rightarrow> string" where
  "str_exn (AttributeError m) = m"
| "str_exn (KeyError m) = m"
| "str_exn (TypeError m) = m"
| "str_exn (ValueError m) = m"
| "str_exn (LibraryError m) = m"

text \<open>What the methods print, line by line.\<close>

datatype printed =
    ColumnsRead "string list" char
  | ExceptionText string
  | Literal string

text \<open>
  \<^verbatim>\<open>DataProcessor.__init__\<close>: the path of the source, the input frame and the result,
  both absent (\<^verbatim>\<open>None\<close>) at first. \<^verbatim>\<open>CsvDataProcessor.__init__\<close> adds the list of
  separators.
\<close>

record 'src DataProcessor =
  datasource :: 'src
  dataset :: "dataframe option"
  result :: "dataframe option"

record 'src CsvDataProcessor = "'src DataProcessor" +
  separators :: "char list"

definition DataProcessor_init :: "'src \<Rightarrow> 'src DataProcessor" where
  "DataProcessor_init src = \<lparr>datasource = src, dataset = None, result = None\<rparr>"

definition CsvDataProcessor_init :: "'src \<Rightarrow> 'src CsvDataProcessor" where
  "CsvDataProcessor_init src =
     \<lparr>datasource = src, dataset = None, result = None,
      separators = [CHR '';'', CHR '','', CHR ''|'']\<rparr>"

section \<open>CsvDataProcessor.read\<close>

text \<open>
  \<^verbatim>\<open>pandas.read_csv(path, sep=separator, header='infer', names=None, encoding="utf-8")\<close>
  is a parameter \<open>read_csv\<close> of the model: for a source and a separator it gives the
  frame parsed or the exception raised.

  The \<^verbatim>\<open>for\<close> loop of \<^verbatim>\<open>read\<close> sits inside one \<^verbatim>\<open>try\<close>. Each iteration stores the parse
  in \<^verbatim>\<open>self._dataset\<close> before it looks at the columns. The loop ends by
  \<^verbatim>\<open>return True\<close>, by an exception, or by running out of separators.
\<close>

datatype loop_exit = Returned bool | Raised exn | Exhausted

fun read_loop ::
  "('src \<Rightarrow> char \<Rightarrow> exn + dataframe) \<Rightarrow> char list \<Rightarrow> 'src CsvDataProcessor
    \<Rightarrow> loop_exit \<times> 'src CsvDataProcessor \<times> printed list" where
  "read_loop read_csv [] p = (Exhausted, p, [])"
| "read_loop read_csv (separator # rest) p =
     (case read_csv (datasource p) separator of
        Inl e \<Rightarrow> (Raised e, p, [])
      | Inr df \<Rightarrow>
          (let p' = p\<lparr>dataset := Some df\<rparr>;
               col_names = columns df
           in if length col_names > 1
              then (Returned True, p', [ColumnsRead col_names separator])
              else read_loop read_csv rest p'))"

definition CsvDataProcessor_read ::
  "('src \<Rightarrow> char \<Rightarrow> exn + dataframe) \<Rightarrow> 'src CsvDataProcessor
    \<Rightarrow> bool \<times> 'src CsvDataProcessor \<times> printed list" where
  "CsvDataProcessor_read read_csv p =
     (case read_loop read_csv (separators p) p of
        (Returned b, p', out) \<Rightarrow> (b, p', out)
      | (Raised e, p', out) \<Rightarrow> (False, p', out @ [ExceptionText (str_exn e)])
      | (Exhausted, p', out) \<Rightarrow> (False, p', out))"

section \<open>TxtDataProcessor.read\<close>

text \<open>
  \<^verbatim>\<open>pandas.read_table(path, sep='\s+', engine='python')\<close> is the parameter \<open>read_table\<close>.
  This is the method of the later version of the file (the lab 4-5 directory).
\<close>

definition TxtDataProcessor_read ::
  "('src \<Rightarrow> exn + dataframe) \<Rightarrow> 'src DataProcessor
    \<Rightarrow> bool \<times> 'src DataProcessor \<times> printed list" where
  "TxtDataProcessor_read read_table p =
     (case read_table (datasource p) of
        Inl e \<Rightarrow> (False, p, [ExceptionText (str_exn e)])
      | Inr df \<Rightarrow>
          (let p' = p\<lparr>dataset := Some df\<rparr>;
               col_names = columns df
           in if length col_names < 2 then (False, p', []) else (True, p', [])))"

text \<open>
  The method of the earlier version (the lab 3 directory) starts with \<^verbatim>\<open>if self._dataset.isna():\<close>. On \<^verbatim>\<open>None\<close>
  the attribute lookup raises AttributeError. On a frame, \<^verbatim>\<open>isna()\<close> gives a frame of
  booleans, and the truth value of a frame raises ValueError.
\<close>

definition isna_truth :: "dataframe option \<Rightarrow> exn + bool" where
  "isna_truth d =
     (case d of
        None \<Rightarrow> Inl (AttributeError ''NoneType object has no attribute isna'')
      | Some df \<Rightarrow> Inl (ValueError ''The truth value of a DataFrame is ambiguous''))"

definition lab3_TxtDataProcessor_read ::
  "('src \<Rightarrow> exn + dataframe) \<Rightarrow> 'src DataProcessor
    \<Rightarrow> bool \<times> 'src DataProcessor \<times> printed list" where
  "lab3_TxtDataProcessor_read read_table p =
     (case isna_truth (dataset p) of
        Inl e \<Rightarrow> (False, p, [ExceptionText (str_exn e)])
      | Inr b \<Rightarrow>
          (let out = [Literal (if b then ''123'' else ''3222'')]
           in case read_table (datasource p) of
                Inl e \<Rightarrow> (False, p, out @ [ExceptionText (str_exn e)])
              | Inr df \<Rightarrow>
                  (let p' = p\<lparr>dataset := Some df\<rparr>;
                       col_names = columns df
                   in if length col_names < 2 then (False, p', out) else (True, p', out))))"

section \<open>The cleaning step of CsvDataProcessor.run\<close>

text \<open>
  The cell of a row in the column at position \<open>i\<close>. Column labels given by the pandas
  parser are unique, so the label \<^verbatim>\<open>col_namess[i]\<close> names the column at position \<open>i\<close>.
\<close>

definition cell_at :: "row \<Rightarrow> nat \<Rightarrow> cell" where
  "cell_at r i = (if i < length r then r ! i else NaN)"

definition isna :: "cell \<Rightarrow> bool" where
  "isna c = (c = NaN)"

text \<open>\<^verbatim>\<open>df[label].replace(old, new, inplace=True)\<close>, on every row of the frame.\<close>

definition replace_in_column :: "nat \<Rightarrow> cell \<Rightarrow> cell \<Rightarrow> row list \<Rightarrow> row list" where
  "replace_in_column i old new rs =
     map (\<lambda>r. if i < length r \<and> r ! i = old then r[i := new] else r) rs"

text \<open>\<^verbatim>\<open>df.dropna(subset=[label], inplace=True)\<close>.\<close>

definition dropna_subset :: "nat \<Rightarrow> row list \<Rightarrow> row list" where
  "dropna_subset i rs = filter (\<lambda>r. \<not> isna (cell_at r i)) rs"

text \<open>
  The statement \<^verbatim>\<open>self._dataset[label].replace('', np.nan, inplace=True)\<close> replaces in
  place on the column object selected from the frame. Whether that reaches the frame
  depends on the pandas that runs the program, and the repository fixes none: before
  pandas 3 the selected column shares its data with the frame and the frame changes;
  under copy-on-write (pandas 3) the selected column is a temporary and the frame stays
  as it was. The flag \<open>copy_on_write\<close> tells the two apart.
\<close>

definition chained_replace ::
  "bool \<Rightarrow> nat \<Rightarrow> cell \<Rightarrow> cell \<Rightarrow> row list \<Rightarrow> row list" where
  "chained_replace copy_on_write i old new rs =
     (if copy_on_write then rs else replace_in_column i old new rs)"

text \<open>
  The loop \<^verbatim>\<open>for i in range(len(col_namess))\<close> of \<^verbatim>\<open>run\<close>: for each column in turn,
  the replacement of empty strings by the missing marker, then the rows with a missing
  cell in that column are dropped.
\<close>

fun cleaning_loop :: "bool \<Rightarrow> nat list \<Rightarrow> row list \<Rightarrow> row list" where
  "cleaning_loop copy_on_write [] rs = rs"
| "cleaning_loop copy_on_write (i # rest) rs =
     cleaning_loop copy_on_write rest
       (dropna_subset i (chained_replace copy_on_write i (Str []) NaN rs))"

definition cleaning :: "bool \<Rightarrow> dataframe \<Rightarrow> dataframe" where
  "cleaning copy_on_write df =
     df\<lparr>rows := cleaning_loop copy_on_write [0..<length (columns df)] (rows df)\<rparr>"

text \<open>
  The formulation that the specification compares the loop with: one pass over the rows
  that drops each row with a missing marker in some column. The missing marker stands for
  an absent or empty cell; \<open>rowwise_dropna\<close> takes the cells that hold the marker,
  \<open>rowwise_clean\<close> takes with them the cells that hold the empty string, which the loop
  turns into the marker where the replacement reaches the frame.
\<close>

definition has_missing :: "nat \<Rightarrow> row \<Rightarrow> bool" where
  "has_missing n r = list_ex (\<lambda>i. isna (cell_at r i)) [0..<n]"

definition rowwise_dropna :: "dataframe \<Rightarrow> dataframe" where
  "rowwise_dropna df = df\<lparr>rows := filter (\<lambda>r. \<not> has_missing (length (columns df)) r) (rows df)\<rparr>"

definition missing_or_empty :: "cell \<Rightarrow> bool" where
  "missing_or_empty c = (c = NaN \<or> c = Str [])"

definition has_missing_or_empty :: "nat \<Rightarrow> row \<Rightarrow> bool" where
  "has_missing_or_empty n r = list_ex (\<lambda>i. missing_or_empty (cell_at r i)) [0..<n]"

definition rowwise_clean :: "dataframe \<Rightarrow> dataframe" where
  "rowwise_clean df =
     df\<lparr>rows := filter (\<lambda>r. \<not> has_missing_or_empty (length (columns df)) r) (rows df)\<rparr>"

text \<open>A frame without empty strings under its columns.\<close>

definition no_empty_strings :: "dataframe \<Rightarrow> bool" where
  "no_empty_strings df =
     list_all (\<lambda>r. \<not> list_ex (\<lambda>i. cell_at r i = Str []) [0..<length (columns df)]) (rows df)"

text \<open>A frame with one cell per column in every row, as pandas builds them.\<close>

definition rectangular :: "dataframe \<Rightarrow> bool" where
  "rectangular df = list_all (\<lambda>r. length r = length (columns df)) (rows df)"

text \<open>A frame that is already cleaned: no cell is missing or an empty string.\<close>

definition already_cleaned :: "dataframe \<Rightarrow> bool" where
  "already_cleaned df =
     list_all (\<lambda>r. \<not> has_missing_or_empty (length (columns df)) r) (rows df)"

section \<open>The price categories\<close>

text \<open>
  \<^verbatim>\<open>pandas.cut(x, bins, labels=labels)\<close> with the defaults \<^verbatim>\<open>right=True\<close> and
  \<^verbatim>\<open>include_lowest=False\<close>: the position of a value among the sorted edges is found by
  \<^verbatim>\<open>bins.searchsorted(x, side='left')\<close>, the number of edges below the value. Position 0
  (at or below the first edge), position \<^verbatim>\<open>len(bins)\<close> and a missing value give no
  category; position \<open>k\<close> gives \<^verbatim>\<open>labels[k - 1]\<close>. A string in the column raises
  TypeError. An edge is a number or \<^verbatim>\<open>np.inf\<close>.
\<close>

datatype edge = Edge real | PosInf

fun edge_below :: "edge \<Rightarrow> real \<Rightarrow> bool" where
  "edge_below (Edge b) v = (b < v)"
| "edge_below PosInf v = False"

definition searchsorted_left :: "edge list \<Rightarrow> real \<Rightarrow> nat" where
  "searchsorted_left bins v = length (takeWhile (\<lambda>b. edge_below b v) bins)"

definition pandas_cut :: "edge list \<Rightarrow> cell list \<Rightarrow> cell \<Rightarrow> exn + cell" where
  "pandas_cut bins labels x =
     (case x of
        NaN \<Rightarrow> Inr NaN
      | Str s \<Rightarrow> Inl (TypeError ''not supported between instances of float and str'')
      | Num v \<Rightarrow>
          (let ids = searchsorted_left bins v
           in if ids = length bins \<or> ids = 0 then Inr NaN else Inr (labels ! (ids - 1))))"

fun cut_column :: "edge list \<Rightarrow> cell list \<Rightarrow> cell list \<Rightarrow> exn + cell list" where
  "cut_column bins labels [] = Inr []"
| "cut_column bins labels (x # xs) =
     (case pandas_cut bins labels x of
        Inl e \<Rightarrow> Inl e
      | Inr c \<Rightarrow>
          (case cut_column bins labels xs of
             Inl e \<Rightarrow> Inl e
           | Inr cs \<Rightarrow> Inr (c # cs)))"

text \<open>The call of \<^verbatim>\<open>run\<close>: \<^verbatim>\<open>pandas.cut(..., [0,500000,1500000,np.inf], labels = [1,2,3])\<close>.\<close>

definition price_bins :: "edge list" where
  "price_bins = [Edge 0, Edge 500000, Edge 1500000, PosInf]"

definition price_labels :: "cell list" where
  "price_labels = [Num 1, Num 2, Num 3]"

definition price_category :: "cell \<Rightarrow> exn + cell" where
  "price_category x = pandas_cut price_bins price_labels x"

section \<open>Columns by label\<close>

fun column_index :: "string \<Rightarrow> string list \<Rightarrow> nat option" where
  "column_index c [] = None"
| "column_index c (x # xs) =
     (if x = c then Some 0 else map_option Suc (column_index c xs))"

definition column_values :: "dataframe \<Rightarrow> string \<Rightarrow> cell list" where
  "column_values df c =
     (case column_index c (columns df) of
        None \<Rightarrow> []
      | Some k \<Rightarrow> map (\<lambda>r. cell_at r k) (rows df))"

text \<open>
  \<^verbatim>\<open>df[label] = values\<close>: an existing column is overwritten, a new label is appended as
  the last column.
\<close>

definition set_column :: "dataframe \<Rightarrow> string \<Rightarrow> cell list \<Rightarrow> dataframe" where
  "set_column df c vs =
     (case column_index c (columns df) of
        Some k \<Rightarrow> df\<lparr>rows := map (\<lambda>(r, v). r[k := v]) (zip (rows df) vs)\<rparr>
      | None \<Rightarrow> df\<lparr>columns := columns df @ [c],
                    rows := map (\<lambda>(r, v). r @ [v]) (zip (rows df) vs)\<rparr>)"

section \<open>Sorting\<close>

text \<open>
  \<^verbatim>\<open>sort_data_by_col\<close> passes its arguments to \<^verbatim>\<open>DataFrame.sort_values\<close>, a parameter
  \<open>sort_values\<close> of the model. The source leaves \<^verbatim>\<open>kind\<close> at its default, quicksort,
  for which pandas promises an ordered rearrangement of the rows with the missing keys
  last, and no more: the order among rows of equal key is not part of the contract.
\<close>

definition sort_data_by_col ::
  "(dataframe \<Rightarrow> string list \<Rightarrow> bool \<Rightarrow> exn + dataframe)
    \<Rightarrow> dataframe \<Rightarrow> string \<Rightarrow> bool \<Rightarrow> exn + dataframe" where
  "sort_data_by_col sort_values df colname asc = sort_values df [colname] asc"

text \<open>Python's \<^verbatim>\<open>a <= b\<close> on two cells; it does not hold when a missing marker is involved.\<close>

fun str_le :: "string \<Rightarrow> string \<Rightarrow> bool" where
  "str_le [] t = True"
| "str_le (c # s) [] = False"
| "str_le (c # s) (d # t) =
     ((of_char c :: nat) < of_char d \<or> (c = d \<and> str_le s t))"

fun cell_le :: "cell \<Rightarrow> cell \<Rightarrow> bool" where
  "cell_le (Num x) (Num y) = (x \<le> y)"
| "cell_le (Str s) (Str t) = str_le s t"
| "cell_le a b = False"

text \<open>The order of an ascending sort with \<^verbatim>\<open>na_position='last'\<close>.\<close>

definition na_last_le :: "cell \<Rightarrow> cell \<Rightarrow> bool" where
  "na_last_le a b = (b = NaN \<or> cell_le a b)"

definition sort_values_contract ::
  "(dataframe \<Rightarrow> string list \<Rightarrow> bool \<Rightarrow> exn + dataframe) \<Rightarrow> bool" where
  "sort_values_contract sort_values =
     (\<forall>df c df'. sort_values df [c] True = Inr df' \<longrightarrow>
        c \<in> set (columns df)
        \<and> columns df' = columns df
        \<and> mset (rows df') = mset (rows df)
        \<and> sorted_wrt na_last_le (column_values df' c))"

text \<open>
  One function that meets the contract, used to run the model on examples: an insertion
  sort of the rows on a column of numbers and missing markers (missing keys last, in
  ascending and in descending order).
\<close>

fun insert_row :: "nat \<Rightarrow> row \<Rightarrow> row list \<Rightarrow> row list" where
  "insert_row k r [] = [r]"
| "insert_row k r (x # xs) =
     (if na_last_le (cell_at r k) (cell_at x k) then r # x # xs else x # insert_row k r xs)"

fun insertion_sort :: "nat \<Rightarrow> row list \<Rightarrow> row list" where
  "insertion_sort k [] = []"
| "insertion_sort k (r # rs) = insert_row k r (insertion_sort k rs)"

definition is_str :: "cell \<Rightarrow> bool" where
  "is_str c = (case c of Str s \<Rightarrow> True | _ \<Rightarrow> False)"

definition insertion_sort_values :: "dataframe \<Rightarrow> string list \<Rightarrow> bool \<Rightarrow> exn + dataframe" where
  "insertion_sort_values df by asc =
     (case by of
        [c] \<Rightarrow>
          (case column_index c (columns df) of
             None \<Rightarrow> Inl (KeyError c)
           | Some k \<Rightarrow>
               if list_ex (\<lambda>r. is_str (cell_at r k)) (rows df)
               then Inl (TypeError ''column of strings'')
               else if asc then Inr (df\<lparr>rows := insertion_sort k (rows df)\<rparr>)
               else Inr (df\<lparr>rows :=
                      rev (filter (\<lambda>r. \<not> isna (cell_at r k)) (insertion_sort k (rows df)))
                      @ filter (\<lambda>r. isna (cell_at r k)) (rows df)\<rparr>))
      | _ \<Rightarrow> Inl (ValueError ''one label expected''))"

section \<open>run\<close>

text \<open>
  \<^verbatim>\<open>CsvDataProcessor.run\<close>. The frame is cleaned and extended in place, so the frame field
  changes with each step; the result is the sorted frame. An exception leaves \<^verbatim>\<open>run\<close>
  (it has no handler): the model returns it together with the state reached. The later
  version of the file first sets the result to an empty frame. The first argument is the
  flag of the cleaning step.
\<close>

definition CsvDataProcessor_run_body ::
  "bool \<Rightarrow> (dataframe \<Rightarrow> string list \<Rightarrow> bool \<Rightarrow> exn + dataframe)
    \<Rightarrow> 'src CsvDataProcessor \<Rightarrow> exn option \<times> 'src CsvDataProcessor" where
  "CsvDataProcessor_run_body copy_on_write sort_values p =
     (case dataset p of
        None \<Rightarrow> (Some (AttributeError ''NoneType object has no attribute columns''), p)
      | Some df \<Rightarrow>
          (let df1 = cleaning copy_on_write df;
               p1 = p\<lparr>dataset := Some df1\<rparr>
           in case column_index ''selling_price'' (columns df1) of
                None \<Rightarrow> (Some (KeyError ''selling_price''), p1)
              | Some k \<Rightarrow>
                  (case cut_column price_bins price_labels (column_values df1 ''selling_price'') of
                     Inl e \<Rightarrow> (Some e, p1)
                   | Inr cats \<Rightarrow>
                       (let df2 = set_column df1 ''price_category'' cats;
                            p2 = p1\<lparr>dataset := Some df2\<rparr>
                        in case sort_data_by_col sort_values df2 ''selling_price'' True of
                             Inl e \<Rightarrow> (Some e, p2)
                           | Inr r \<Rightarrow> (None, p2\<lparr>result := Some r\<rparr>)))))"

definition empty_frame :: dataframe where
  "empty_frame = \<lparr>columns = [], rows = []\<rparr>"

definition CsvDataProcessor_run ::
  "bool \<Rightarrow> (dataframe \<Rightarrow> string list \<Rightarrow> bool \<Rightarrow> exn + dataframe)
    \<Rightarrow> 'src CsvDataProcessor \<Rightarrow> exn option \<times> 'src CsvDataProcessor" where
  "CsvDataProcessor_run copy_on_write sort_values p =
     CsvDataProcessor_run_body copy_on_write sort_values (p\<lparr>result := Some empty_frame\<rparr>)"

definition lab3_CsvDataProcessor_run ::
  "bool \<Rightarrow> (dataframe \<Rightarrow> string list \<Rightarrow> bool \<Rightarrow> exn + dataframe)
    \<Rightarrow> 'src CsvDataProcessor \<Rightarrow> exn option \<times> 'src CsvDataProcessor" where
  "lab3_CsvDataProcessor_run copy_on_write sort_values p =
     CsvDataProcessor_run_body copy_on_write sort_values p"

text \<open>\<^verbatim>\<open>TxtDataProcessor.run\<close>, the same in both versions: the frame is sorted as it is.\<close>

definition TxtDataProcessor_run ::
  "(dataframe \<Rightarrow> string list \<Rightarrow> bool \<Rightarrow> exn + dataframe)
    \<Rightarrow> 'src DataProcessor \<Rightarrow> exn option \<times> 'src DataProcessor" where
  "TxtDataProcessor_run sort_values p =
     (case dataset p of
        None \<Rightarrow> (Some (AttributeError ''NoneType object has no attribute sort_values''), p)
      | Some df \<Rightarrow>
          (case sort_data_by_col sort_values df ''selling_price'' True of
             Inl e \<Rightarrow> (Some e, p)
           | Inr r \<Rightarrow> (None, p\<lparr>result := Some r\<rparr>)))"

section \<open>get_mean_value_by_filter\<close>

text \<open>
  \<^verbatim>\<open>get_mean_value_by_filter\<close> of the later version: \<^verbatim>\<open>df.query(filter_expr)\<close>, then
  \<^verbatim>\<open>mean(axis=0, skipna=True).to_frame().T\<close>. \<^verbatim>\<open>DataFrame.query\<close> is a parameter \<open>query\<close> of
  the model. The mean of a column is computed as pandas does: the missing cells count as
  0 in the sum and are left out of the count, a column with nothing to count gives the
  missing marker, and a string in the column raises TypeError. Numbers are real numbers
  here: the rounding of float64 is not modelled. The means come back as one row under the
  labels of the frame.
\<close>

fun cell_value :: "cell \<Rightarrow> real" where
  "cell_value (Num v) = v"
| "cell_value c = 0"

definition nanmean :: "cell list \<Rightarrow> exn + cell" where
  "nanmean cs =
     (if list_ex is_str cs then Inl (TypeError ''could not convert to numeric'')
      else (let the_sum = sum_list (map cell_value cs);
                count = length cs - length (filter isna cs)
            in if count = 0 then Inr NaN else Inr (Num (the_sum / real count))))"

fun column_means :: "cell list list \<Rightarrow> exn + cell list" where
  "column_means [] = Inr []"
| "column_means (cs # rest) =
     (case nanmean cs of
        Inl e \<Rightarrow> Inl e
      | Inr m \<Rightarrow>
          (case column_means rest of
             Inl e \<Rightarrow> Inl e
           | Inr ms \<Rightarrow> Inr (m # ms)))"

definition mean_to_frame_T :: "dataframe \<Rightarrow> exn + dataframe" where
  "mean_to_frame_T df =
     (case column_means (map (\<lambda>i. map (\<lambda>r. cell_at r i) (rows df)) [0..<length (columns df)]) of
        Inl e \<Rightarrow> Inl e
      | Inr ms \<Rightarrow> Inr \<lparr>columns = columns df, rows = [ms]\<rparr>)"

definition get_mean_value_by_filter ::
  "(dataframe \<Rightarrow> string \<Rightarrow> exn + dataframe) \<Rightarrow> dataframe \<Rightarrow> string \<Rightarrow> exn + dataframe" where
  "get_mean_value_by_filter query df filter_expr =
     (case query df filter_expr of
        Inl e \<Rightarrow> Inl e
      | Inr filtered \<Rightarrow> mean_to_frame_T filtered)"




definition no_strings :: "dataframe \<Rightarrow> bool" where
  "no_strings df =
     list_all (\<lambda>r. \<not> list_ex (\<lambda>i. is_str (cell_at r i)) [0..<length (columns df)]) (rows df)"

section \<open>Example sources\<close>

text \<open>The frames that the files used below parse to.\<close>

definition frame_ab :: dataframe where
  "frame_ab = \<lparr>columns = [''a'', ''b''], rows = [[Num 1, Num 2]]\<rparr>"

definition frame_a :: dataframe where
  "frame_a = \<lparr>columns = [''a''], rows = [[Num 1]]\<rparr>"

definition frame_line :: dataframe where
  "frame_line = \<lparr>columns = [''a,b''], rows = [[Str ''1,2'']]\<rparr>"

text \<open>
  The file \<^verbatim>\<open>a,b\n1,2\n3;4;5,6\n\<close>: under \<^verbatim>\<open>;\<close> the third line has three fields where one
  is expected and the parser raises; under \<^verbatim>\<open>,\<close> every line has two fields.
\<close>

definition ragged_csv :: "unit \<Rightarrow> char \<Rightarrow> exn + dataframe" where
  "ragged_csv src separator =
     (if separator = CHR '';'' then Inl (LibraryError ''Expected 1 fields in line 3, saw 3'')
      else if separator = CHR '','' then
        Inr \<lparr>columns = [''a'', ''b''], rows = [[Num 1, Num 2], [Str ''3;4;5'', Num 6]]\<rparr>
      else Inr \<lparr>columns = [''a,b''], rows = [[Str ''1,2''], [Str ''3;4;5,6'']]\<rparr>)"

text \<open>The file \<^verbatim>\<open>a,b\n1,2\n\<close>: one column under \<^verbatim>\<open>;\<close>, two under \<^verbatim>\<open>,\<close>.\<close>

definition comma_csv :: "unit \<Rightarrow> char \<Rightarrow> exn + dataframe" where
  "comma_csv src separator =
     (if separator = CHR '','' then Inr frame_ab else Inr frame_line)"

text \<open>The file \<^verbatim>\<open>a\n1\n\<close>: one column under every separator.\<close>

definition single_csv :: "unit \<Rightarrow> char \<Rightarrow> exn + dataframe" where
  "single_csv src separator = Inr frame_a"

text \<open>A file that cannot be opened: every parse raises.\<close>

definition missing_csv :: "unit \<Rightarrow> char \<Rightarrow> exn + dataframe" where
  "missing_csv src separator = Inl (LibraryError ''No such file or directory'')"

text \<open>What \<^verbatim>\<open>read_table\<close> gives for the files \<^verbatim>\<open>a b\n1 2\n\<close> and \<^verbatim>\<open>a\n1\n\<close>.\<close>

definition ab_txt :: "unit \<Rightarrow> exn + dataframe" where
  "ab_txt src = Inr frame_ab"

definition a_txt :: "unit \<Rightarrow> exn + dataframe" where
  "a_txt src = Inr frame_a"

text \<open>Frames for the cleaning step, the categories and the sort.\<close>

definition nan_name_frame :: dataframe where
  "nan_name_frame =
     \<lparr>columns = [''name'', ''selling_price''],
      rows = [[NaN, Num 5], [Str ''x'', Num 7], [Str ''y'', NaN]]\<rparr>"

definition blank_name_frame :: dataframe where
  "blank_name_frame =
     \<lparr>columns = [''name'', ''selling_price''],
      rows = [[Str [], Num 5], [Str ''x'', Num 7], [Str ''y'', NaN]]\<rparr>"

definition price_frame :: dataframe where
  "price_frame =
     \<lparr>columns = [''name'', ''selling_price''],
      rows = [[Str ''c'', Num 1500001], [Str ''a'', Num 500000], [NaN, Num 7],
              [Str ''z'', Num 0], [Str ''b'', Num 500001], [Str ''d'', NaN]]\<rparr>"

definition priced_frame :: dataframe where
  "priced_frame =
     \<lparr>columns = [''name'', ''selling_price'', ''price_category''],
      rows = [[Str ''c'', Num 1500001, Num 3], [Str ''a'', Num 500000, Num 1],
              [Str ''z'', Num 0, NaN], [Str ''b'', Num 500001, Num 2]]\<rparr>"

definition priced_result :: dataframe where
  "priced_result =
     \<lparr>columns = [''name'', ''selling_price'', ''price_category''],
      rows = [[Str ''z'', Num 0, NaN], [Str ''a'', Num 500000, Num 1],
              [Str ''b'', Num 500001, Num 2], [Str ''c'', Num 1500001, Num 3]]\<rparr>"

definition csv_loaded :: "unit CsvDataProcessor" where
  "csv_loaded = (CsvDataProcessor_init ())\<lparr>dataset := Some price_frame\<rparr>"




section \<open>Properties of CsvDataProcessor.read\<close>

lemma read_loop_skips:
  assumes "\<forall>t\<in>set pre. \<exists>d. read_csv (datasource p) t = Inr d \<and> length (columns d) \<le> 1"
  shows "read_loop read_csv (pre @ rest) p
           = read_loop read_csv rest
               (if pre = [] then p
                else p\<lparr>dataset := Some (projr (read_csv (datasource p) (last pre)))\<rparr>)"
  using assms
proof (induction pre arbitrary: p)
  case Nil
  then show ?case by simp
next
  case (Cons t pre)
  from Cons.prems obtain d where d: "read_csv (datasource p) t = Inr d" "length (columns d) \<le> 1"
    by auto
  let ?p = "p\<lparr>dataset := Some d\<rparr>"
  have "\<forall>t\<in>set pre. \<exists>d. read_csv (datasource ?p) t = Inr d \<and> length (columns d) \<le> 1"
    using Cons.prems by simp
  note IH = Cons.IH[where p = ?p, OF this]
  have step: "read_loop read_csv ((t # pre) @ rest) p = read_loop read_csv (pre @ rest) ?p"
    using d by simp
  show ?case
  proof (cases "pre = []")
    case True
    then show ?thesis using step d by simp
  next
    case False
    then show ?thesis using step IH by simp
  qed
qed

lemma read_loop_never_false: "fst (read_loop read_csv seps p) \<noteq> Returned False"
  by (induction seps arbitrary: p) (auto split: sum.splits simp: Let_def)

lemma read_loop_no_multicolumn:
  assumes "\<forall>s\<in>set seps. \<forall>df. read_csv (datasource p) s = Inr df \<longrightarrow> length (columns df) \<le> 1"
  shows "fst (read_loop read_csv seps p) \<noteq> Returned True"
  using assms
proof (induction seps arbitrary: p)
  case Nil
  then show ?case by simp
next
  case (Cons s seps)
  show ?case
  proof (cases "read_csv (datasource p) s")
    case (Inl e)
    then show ?thesis by simp
  next
    case (Inr df)
    with Cons.prems have small: "length (columns df) \<le> 1" by simp
    have "\<forall>s\<in>set seps. \<forall>d. read_csv (datasource (p\<lparr>dataset := Some df\<rparr>)) s = Inr d
            \<longrightarrow> length (columns d) \<le> 1"
      using Cons.prems by simp
    from Cons.IH[where p = "p\<lparr>dataset := Some df\<rparr>", OF this] show ?thesis
      using Inr small by (simp add: Let_def)
  qed
qed

text \<open>
  C1, as amended. When the separators tried before \<open>s\<close> all parse without an exception
  and give at most one column, and \<open>s\<close> gives more than one column, \<^verbatim>\<open>read\<close> returns True,
  stores the parse under \<open>s\<close> and reports it. The separators after \<open>s\<close> play no part in the
  result: detection has stopped.
\<close>

theorem read_first_accepted:
  assumes "separators p = pre @ s # post"
    and "\<forall>t\<in>set pre. \<exists>d. read_csv (datasource p) t = Inr d \<and> length (columns d) \<le> 1"
    and "read_csv (datasource p) s = Inr df"
    and "1 < length (columns df)"
  shows "CsvDataProcessor_read read_csv p
           = (True, p\<lparr>dataset := Some df\<rparr>, [ColumnsRead (columns df) s])"
proof -
  define q where "q = (if pre = [] then p
     else p\<lparr>dataset := Some (projr (read_csv (datasource p) (last pre)))\<rparr>)"
  have skip: "read_loop read_csv (pre @ s # post) p = read_loop read_csv (s # post) q"
    unfolding q_def
    using assms(2) by (rule read_loop_skips[where read_csv = read_csv and p = p and pre = pre])
  have src: "datasource q = datasource p" and same: "q\<lparr>dataset := Some df\<rparr> = p\<lparr>dataset := Some df\<rparr>"
    by (simp_all add: q_def)
  have "read_loop read_csv (s # post) q
          = (Returned True, q\<lparr>dataset := Some df\<rparr>, [ColumnsRead (columns df) s])"
    using assms(3,4) src by (simp add: Let_def)
  with skip same show ?thesis
    by (simp add: CsvDataProcessor_read_def assms(1))
qed

theorem read_first_accepted_witness:
  "CsvDataProcessor_read comma_csv (CsvDataProcessor_init ())
     = (True, (CsvDataProcessor_init ())\<lparr>dataset := Some frame_ab\<rparr>,
        [ColumnsRead [''a'', ''b''] (CHR '','')])"
  using read_first_accepted [of "CsvDataProcessor_init ()" "[CHR '';'']" "CHR '',''"
      "[CHR ''|'']" comma_csv frame_ab]
  by (simp add: CsvDataProcessor_init_def comma_csv_def frame_ab_def frame_line_def)

text \<open>
  C1 as it is stated fails: for the file \<^verbatim>\<open>a,b\n1,2\n3;4;5,6\n\<close> the separator \<^verbatim>\<open>,\<close> is
  tested by the priority list and parses the file into two columns, yet \<^verbatim>\<open>read\<close> returns
  False, because the parse under \<^verbatim>\<open>;\<close> raised first.
\<close>

theorem read_first_accepted_counterexample:
  "CHR '','' \<in> set (separators (CsvDataProcessor_init ()))
   \<and> (case ragged_csv () (CHR '','') of Inl e \<Rightarrow> False | Inr df \<Rightarrow> 1 < length (columns df))
   \<and> fst (CsvDataProcessor_read ragged_csv (CsvDataProcessor_init ())) = False"
  by (simp add: CsvDataProcessor_read_def CsvDataProcessor_init_def ragged_csv_def)

text \<open>
  C2, as amended. An exception raised by the parse under a separator \<open>s\<close> is caught and
  its text printed; detection ends there and \<^verbatim>\<open>read\<close> returns False without trying the
  separators after \<open>s\<close>. The frame field keeps the last parse that completed (that of the
  separator just before \<open>s\<close>), or its old value when \<open>s\<close> is the first separator. The
  result of \<^verbatim>\<open>read\<close> is always a value: no exception reaches the caller.
\<close>

theorem read_exception_ends_detection:
  assumes "separators p = pre @ s # post"
    and "\<forall>t\<in>set pre. \<exists>d. read_csv (datasource p) t = Inr d \<and> length (columns d) \<le> 1"
    and "read_csv (datasource p) s = Inl e"
  shows "CsvDataProcessor_read read_csv p
           = (False,
              (if pre = [] then p
               else p\<lparr>dataset := Some (projr (read_csv (datasource p) (last pre)))\<rparr>),
              [ExceptionText (str_exn e)])"
proof -
  define q where "q = (if pre = [] then p
     else p\<lparr>dataset := Some (projr (read_csv (datasource p) (last pre)))\<rparr>)"
  have skip: "read_loop read_csv (pre @ s # post) p = read_loop read_csv (s # post) q"
    unfolding q_def
    using assms(2) by (rule read_loop_skips[where read_csv = read_csv and p = p and pre = pre])
  have src: "datasource q = datasource p"
    by (simp add: q_def)
  have "read_loop read_csv (s # post) q = (Raised e, q, [])"
    using assms(3) src by simp
  with skip show ?thesis
    by (simp add: CsvDataProcessor_read_def assms(1) q_def)
qed

theorem read_exception_ends_detection_witness:
  "CsvDataProcessor_read ragged_csv (CsvDataProcessor_init ())
     = (False, CsvDataProcessor_init (),
        [ExceptionText ''Expected 1 fields in line 3, saw 3''])"
  using read_exception_ends_detection [of "CsvDataProcessor_init ()" "[]" "CHR '';''"
      "[CHR '','', CHR ''|'']" ragged_csv "LibraryError ''Expected 1 fields in line 3, saw 3''"]
  by (simp add: CsvDataProcessor_init_def ragged_csv_def)

text \<open>
  C2 as it is stated fails: on the file \<^verbatim>\<open>a,b\n1,2\n3;4;5,6\n\<close> the exception of the first
  separator ends the loop. \<^verbatim>\<open>read\<close> returns False and leaves the frame absent, although
  the next separator of the list parses the file into two columns: the loop did not
  continue, and \<^verbatim>\<open>read\<close> returned False without a failure of every separator.
\<close>

theorem read_exception_ends_detection_counterexample:
  "ragged_csv () (CHR '','')
     = Inr \<lparr>columns = [''a'', ''b''], rows = [[Num 1, Num 2], [Str ''3;4;5'', Num 6]]\<rparr>
   \<and> fst (CsvDataProcessor_read ragged_csv (CsvDataProcessor_init ())) = False
   \<and> dataset (fst (snd (CsvDataProcessor_read ragged_csv (CsvDataProcessor_init ())))) = None"
  by (simp add: CsvDataProcessor_read_def CsvDataProcessor_init_def ragged_csv_def)

text \<open>
  C5, as amended. When no separator of the list gives more than one column, \<^verbatim>\<open>read\<close>
  returns False. The frame field is not left as it was: it holds the last parse that
  completed. When every parse completes that is the parse under the last separator; the
  field keeps its old value (absent, on a new processor) only when the list is empty or
  the parse under the first separator raises.
\<close>

theorem read_no_multicolumn:
  assumes "\<forall>s\<in>set (separators p). \<forall>df. read_csv (datasource p) s = Inr df
             \<longrightarrow> length (columns df) \<le> 1"
  shows "fst (CsvDataProcessor_read read_csv p) = False
       \<and> (separators p \<noteq> [] \<and> (\<forall>s\<in>set (separators p). \<exists>d. read_csv (datasource p) s = Inr d)
            \<longrightarrow> fst (snd (CsvDataProcessor_read read_csv p))
                 = p\<lparr>dataset := Some (projr (read_csv (datasource p) (last (separators p))))\<rparr>)
       \<and> (separators p = [] \<or> (\<exists>e. read_csv (datasource p) (hd (separators p)) = Inl e)
            \<longrightarrow> fst (snd (CsvDataProcessor_read read_csv p)) = p)"
proof (intro conjI impI)
  obtain x q out where r: "read_loop read_csv (separators p) p = (x, q, out)"
    by (cases "read_loop read_csv (separators p) p") auto
  from read_loop_no_multicolumn[where read_csv = read_csv and p = p and seps = "separators p"]
    assms r have "x \<noteq> Returned True" by simp
  with r show "fst (CsvDataProcessor_read read_csv p) = False"
    by (cases x) (auto simp: CsvDataProcessor_read_def)
next
  assume a: "separators p \<noteq> [] \<and> (\<forall>s\<in>set (separators p). \<exists>d. read_csv (datasource p) s = Inr d)"
  have "\<forall>t\<in>set (separators p). \<exists>d. read_csv (datasource p) t = Inr d \<and> length (columns d) \<le> 1"
    using a assms by blast
  from read_loop_skips[where read_csv = read_csv and p = p and pre = "separators p"
      and rest = "[]"] this a
  show "fst (snd (CsvDataProcessor_read read_csv p))
          = p\<lparr>dataset := Some (projr (read_csv (datasource p) (last (separators p))))\<rparr>"
    by (simp add: CsvDataProcessor_read_def)
next
  assume "separators p = [] \<or> (\<exists>e. read_csv (datasource p) (hd (separators p)) = Inl e)"
  then show "fst (snd (CsvDataProcessor_read read_csv p)) = p"
    by (cases "separators p") (auto simp: CsvDataProcessor_read_def)
qed

theorem read_no_multicolumn_witness:
  "fst (CsvDataProcessor_read single_csv (CsvDataProcessor_init ())) = False
   \<and> fst (snd (CsvDataProcessor_read single_csv (CsvDataProcessor_init ())))
       = (CsvDataProcessor_init ())\<lparr>dataset := Some frame_a\<rparr>
   \<and> fst (snd (CsvDataProcessor_read missing_csv (CsvDataProcessor_init ())))
       = CsvDataProcessor_init ()"
  using read_no_multicolumn [of "CsvDataProcessor_init ()" single_csv]
    read_no_multicolumn [of "CsvDataProcessor_init ()" missing_csv]
  by (simp add: CsvDataProcessor_init_def single_csv_def missing_csv_def frame_a_def)

text \<open>
  C5 as it is stated fails: on the file \<^verbatim>\<open>a\n1\n\<close> no separator gives more than one
  column and \<^verbatim>\<open>read\<close> returns False, but the frame of the processor is no longer absent.
\<close>

theorem read_no_multicolumn_counterexample:
  "separators (CsvDataProcessor_init ()) = [CHR '';'', CHR '','', CHR ''|'']
   \<and> single_csv () (CHR '';'') = Inr frame_a
   \<and> single_csv () (CHR '','') = Inr frame_a
   \<and> single_csv () (CHR ''|'') = Inr frame_a
   \<and> length (columns frame_a) \<le> 1
   \<and> fst (CsvDataProcessor_read single_csv (CsvDataProcessor_init ())) = False
   \<and> dataset (CsvDataProcessor_init ()) = None
   \<and> dataset (fst (snd (CsvDataProcessor_read single_csv (CsvDataProcessor_init ()))))
       = Some frame_a"
  by (simp add: CsvDataProcessor_read_def CsvDataProcessor_init_def single_csv_def frame_a_def)


section \<open>Properties of TxtDataProcessor.read\<close>

text \<open>
  The method of the later version returns True exactly when the parse completes and has
  at least two columns.
\<close>

lemma TxtDataProcessor_read_returns:
  "fst (TxtDataProcessor_read read_table p)
     = (case read_table (datasource p) of
          Inl e \<Rightarrow> False
        | Inr df \<Rightarrow> 2 \<le> length (columns df))"
  by (auto simp: TxtDataProcessor_read_def Let_def split: sum.splits)

text \<open>
  C10. In the earlier version \<^verbatim>\<open>TxtDataProcessor.read\<close> returns False for every source
  and every state of the processor, and leaves the processor as it was: the test on
  \<^verbatim>\<open>self._dataset\<close> raises before the file is parsed, and the handler turns the
  exception into False. On a new processor the exception is the AttributeError of
  \<^verbatim>\<open>None\<close>.
\<close>

theorem lab3_txt_read_always_false:
  "fst (lab3_TxtDataProcessor_read read_table p) = False
   \<and> fst (snd (lab3_TxtDataProcessor_read read_table p)) = p
   \<and> lab3_TxtDataProcessor_read read_table (DataProcessor_init src)
       = (False, DataProcessor_init src,
          [ExceptionText ''NoneType object has no attribute isna''])"
  by (simp add: lab3_TxtDataProcessor_read_def isna_truth_def DataProcessor_init_def
      split: option.splits)

text \<open>
  C6, at the input \<^verbatim>\<open>a b\n1 2\n\<close>. The later version stores the two-column frame and
  returns True, and returns False on \<^verbatim>\<open>a\n1\n\<close>; the earlier version returns False on
  the two-column file too and stores nothing.
\<close>

theorem lab3_txt_read_rejects_two_columns:
  "TxtDataProcessor_read ab_txt (DataProcessor_init ())
     = (True, (DataProcessor_init ())\<lparr>dataset := Some frame_ab\<rparr>, [])
   \<and> fst (TxtDataProcessor_read a_txt (DataProcessor_init ())) = False
   \<and> lab3_TxtDataProcessor_read ab_txt (DataProcessor_init ())
     = (False, DataProcessor_init (), [ExceptionText ''NoneType object has no attribute isna''])"
  by (simp add: TxtDataProcessor_read_def lab3_TxtDataProcessor_read_def isna_truth_def
      DataProcessor_init_def ab_txt_def a_txt_def frame_ab_def frame_a_def)

section \<open>Properties of the cleaning step\<close>

lemma clean_column:
  "dropna_subset i (chained_replace False i (Str []) NaN rs)
     = filter (\<lambda>r. \<not> missing_or_empty (cell_at r i)) rs"
  by (induction rs)
     (auto simp: dropna_subset_def chained_replace_def replace_in_column_def
        missing_or_empty_def isna_def cell_at_def)

lemma cleaning_loop_filter:
  "cleaning_loop False cs rs
     = filter (\<lambda>r. \<forall>i\<in>set cs. \<not> missing_or_empty (cell_at r i)) rs"
proof (induction cs arbitrary: rs)
  case Nil
  then show ?case by simp
next
  case (Cons c cs)
  have "cleaning_loop False (c # cs) rs
          = cleaning_loop False cs (filter (\<lambda>r. \<not> missing_or_empty (cell_at r c)) rs)"
    by (simp add: clean_column)
  also have "\<dots> = filter (\<lambda>r. \<forall>i\<in>set cs. \<not> missing_or_empty (cell_at r i))
                     (filter (\<lambda>r. \<not> missing_or_empty (cell_at r c)) rs)"
    by (rule Cons.IH)
  also have "\<dots> = filter (\<lambda>r. \<forall>i\<in>set (c # cs). \<not> missing_or_empty (cell_at r i)) rs"
    by (simp add: conj_commute)
  finally show ?case .
qed

lemma cleaning_loop_filter_cow:
  "cleaning_loop True cs rs = filter (\<lambda>r. \<forall>i\<in>set cs. \<not> isna (cell_at r i)) rs"
proof (induction cs arbitrary: rs)
  case Nil
  then show ?case by simp
next
  case (Cons c cs)
  have "cleaning_loop True (c # cs) rs
          = cleaning_loop True cs (filter (\<lambda>r. \<not> isna (cell_at r c)) rs)"
    by (simp add: chained_replace_def dropna_subset_def)
  also have "\<dots> = filter (\<lambda>r. \<forall>i\<in>set cs. \<not> isna (cell_at r i))
                     (filter (\<lambda>r. \<not> isna (cell_at r c)) rs)"
    by (rule Cons.IH)
  also have "\<dots> = filter (\<lambda>r. \<forall>i\<in>set (c # cs). \<not> isna (cell_at r i)) rs"
    by (simp add: conj_commute)
  finally show ?case .
qed

lemma cleaning_rows:
  "rows (cleaning False df)
     = filter (\<lambda>r. \<not> has_missing_or_empty (length (columns df)) r) (rows df)"
  by (simp add: cleaning_def cleaning_loop_filter has_missing_or_empty_def list_ex_iff)

lemma cleaning_rows_cow:
  "rows (cleaning True df) = filter (\<lambda>r. \<not> has_missing (length (columns df)) r) (rows df)"
  by (simp add: cleaning_def cleaning_loop_filter_cow has_missing_def list_ex_iff)

lemma cleaning_eq_rowwise_clean: "cleaning False df = rowwise_clean df"
  by (simp add: rowwise_clean_def cleaning_rows[symmetric] cleaning_def)

lemma cleaning_eq_rowwise_dropna: "cleaning True df = rowwise_dropna df"
  by (simp add: rowwise_dropna_def cleaning_rows_cow[symmetric] cleaning_def)

lemma no_empty_strings_missing:
  assumes "no_empty_strings df" and "r \<in> set (rows df)"
  shows "has_missing_or_empty (length (columns df)) r = has_missing (length (columns df)) r"
  using assms
  by (auto simp: no_empty_strings_def has_missing_or_empty_def has_missing_def list_all_iff
      list_ex_iff missing_or_empty_def isna_def)

lemma rowwise_clean_no_empty_strings:
  assumes "no_empty_strings df"
  shows "rowwise_clean df = rowwise_dropna df"
proof -
  have "filter (\<lambda>r. \<not> has_missing_or_empty (length (columns df)) r) (rows df)
          = filter (\<lambda>r. \<not> has_missing (length (columns df)) r) (rows df)"
    by (rule filter_cong) (simp_all add: no_empty_strings_missing[OF assms])
  then show ?thesis by (simp add: rowwise_clean_def rowwise_dropna_def)
qed

lemma cleaning_subset: "set (rows (cleaning copy_on_write df)) \<subseteq> set (rows df)"
  by (cases copy_on_write) (auto simp: cleaning_rows cleaning_rows_cow)

lemma columns_cleaning [simp]: "columns (cleaning copy_on_write df) = columns df"
  by (simp add: cleaning_def)

text \<open>
  C7. The loop over the columns keeps the same rows, in the same order, as one pass over
  the rows that drops each row with a missing marker in some column. On every frame
  without empty strings (the parser reads an empty field as the missing marker) this
  holds whether or not the replacement reaches the frame. On any frame, where it reaches
  the frame the empty strings have become markers and the pass counts them with the
  markers; where it does not, the pass looks for the markers alone.
\<close>

theorem cleaning_rowwise:
  "(no_empty_strings df \<longrightarrow> cleaning copy_on_write df = rowwise_dropna df)
   \<and> cleaning False df = rowwise_clean df
   \<and> cleaning True df = rowwise_dropna df"
proof (intro conjI impI)
  assume ne: "no_empty_strings df"
  show "cleaning copy_on_write df = rowwise_dropna df"
  proof (cases copy_on_write)
    case True
    then show ?thesis by (simp add: cleaning_eq_rowwise_dropna)
  next
    case False
    then show ?thesis
      by (simp add: cleaning_eq_rowwise_clean rowwise_clean_no_empty_strings[OF ne])
  qed
next
  show "cleaning False df = rowwise_clean df" by (rule cleaning_eq_rowwise_clean)
next
  show "cleaning True df = rowwise_dropna df" by (rule cleaning_eq_rowwise_dropna)
qed

theorem cleaning_rowwise_witness:
  "no_empty_strings nan_name_frame
   \<and> cleaning False nan_name_frame = rowwise_dropna nan_name_frame
   \<and> cleaning True nan_name_frame = rowwise_dropna nan_name_frame
   \<and> rows (rowwise_dropna nan_name_frame) = [[Str ''x'', Num 7]]
   \<and> rows (cleaning False blank_name_frame) = [[Str ''x'', Num 7]]"
proof -
  have h: "no_empty_strings nan_name_frame"
    by (simp add: no_empty_strings_def nan_name_frame_def cell_at_def upt_rec)
  from cleaning_rowwise [of nan_name_frame False] h
  have a: "cleaning False nan_name_frame = rowwise_dropna nan_name_frame" by blast
  from cleaning_rowwise [of nan_name_frame True] h
  have b: "cleaning True nan_name_frame = rowwise_dropna nan_name_frame" by blast
  have c: "rows (rowwise_dropna nan_name_frame) = [[Str ''x'', Num 7]]"
    by (simp add: rowwise_dropna_def nan_name_frame_def has_missing_def isna_def cell_at_def
        upt_rec)
  from cleaning_rowwise [of blank_name_frame False]
  have "cleaning False blank_name_frame = rowwise_clean blank_name_frame" by blast
  moreover have "rows (rowwise_clean blank_name_frame) = [[Str ''x'', Num 7]]"
    by (simp add: rowwise_clean_def blank_name_frame_def has_missing_or_empty_def
        missing_or_empty_def cell_at_def upt_rec)
  ultimately have d: "rows (cleaning False blank_name_frame) = [[Str ''x'', Num 7]]" by simp
  from h a b c d show ?thesis by simp
qed

lemma already_cleaned_cleaning: "already_cleaned (cleaning False df)"
  by (simp add: already_cleaned_def cleaning_rows list_all_iff)

lemma cleaning_twice: "cleaning copy_on_write (cleaning copy_on_write df) = cleaning copy_on_write df"
proof -
  have "rows (cleaning copy_on_write (cleaning copy_on_write df))
          = rows (cleaning copy_on_write df)"
    by (cases copy_on_write) (simp_all add: cleaning_rows cleaning_rows_cow)
  then show ?thesis by (simp add: cleaning_def)
qed

text \<open>
  C8. On a frame that is already cleaned (no cell under a column is missing or an empty
  string) the cleaning step changes nothing: no row is dropped and no cell is replaced.
\<close>

theorem cleaning_idempotent:
  assumes "already_cleaned df"
  shows "cleaning copy_on_write df = df"
proof -
  have keep: "filter (\<lambda>r. \<not> has_missing_or_empty (length (columns df)) r) (rows df) = rows df"
    using assms by (simp add: already_cleaned_def list_all_iff)
  have "\<forall>r\<in>set (rows df). \<not> has_missing (length (columns df)) r"
    using assms
    by (auto simp: already_cleaned_def list_all_iff has_missing_def has_missing_or_empty_def
        list_ex_iff missing_or_empty_def isna_def)
  then have keep': "filter (\<lambda>r. \<not> has_missing (length (columns df)) r) (rows df) = rows df"
    by simp
  have "rows (cleaning copy_on_write df) = rows df"
    using keep keep' by (cases copy_on_write) (simp_all add: cleaning_rows cleaning_rows_cow)
  then show ?thesis by (simp add: cleaning_def)
qed

theorem cleaning_idempotent_witness:
  "already_cleaned frame_ab \<and> cleaning False frame_ab = frame_ab
   \<and> cleaning True frame_ab = frame_ab
   \<and> already_cleaned (cleaning False blank_name_frame)
   \<and> cleaning False (cleaning False blank_name_frame) = cleaning False blank_name_frame"
proof -
  have h: "already_cleaned frame_ab"
    by (simp add: already_cleaned_def frame_ab_def has_missing_or_empty_def
        missing_or_empty_def cell_at_def upt_rec)
  have k: "already_cleaned (cleaning False blank_name_frame)"
    by (rule already_cleaned_cleaning)
  from h k cleaning_idempotent [OF h, of False] cleaning_idempotent [OF h, of True]
    cleaning_idempotent [OF k, of False]
  show ?thesis by simp
qed

section \<open>Properties of the price categories\<close>

lemma searchsorted_price:
  "searchsorted_left price_bins v
     = (if v \<le> 0 then 0 else if v \<le> 500000 then 1 else if v \<le> 1500000 then 2 else 3)"
  by (simp add: searchsorted_left_def price_bins_def)

lemma price_category_Num:
  "price_category (Num v)
     = Inr (if v \<le> 0 then NaN else if v \<le> 500000 then Num 1
            else if v \<le> 1500000 then Num 2 else Num 3)"
  by (simp add: price_category_def pandas_cut_def searchsorted_price Let_def)
     (simp add: price_bins_def price_labels_def)

lemma cut_column_price:
  "cut_column price_bins price_labels (map Num vs)
     = Inr (map (\<lambda>v. if v \<le> 0 then NaN else if v \<le> 500000 then Num 1
                      else if v \<le> 1500000 then Num 2 else Num 3) vs)"
  by (induction vs) (simp_all add: price_category_Num[unfolded price_category_def])

lemma column_index_Some: "column_index c cs = Some k \<Longrightarrow> k < length cs \<and> cs ! k = c"
  by (induction cs arbitrary: k) (auto split: if_splits)

lemma column_index_None: "(column_index c cs = None) = (c \<notin> set cs)"
  by (induction cs) auto

lemma column_index_append:
  "column_index c cs = Some k \<Longrightarrow> column_index c (cs @ ds) = Some k"
  by (induction cs arbitrary: k) (auto split: if_splits)

lemma column_index_neq:
  "column_index c cs = Some k \<Longrightarrow> column_index d cs = Some j \<Longrightarrow> c \<noteq> d \<Longrightarrow> k \<noteq> j"
  by (auto dest!: column_index_Some)

lemma set_column_index:
  assumes "column_index c (columns df) = Some k" and "c \<noteq> d"
  shows "column_index c (columns (set_column df d vs)) = Some k"
  using assms by (auto simp: set_column_def column_index_append split: option.splits)

lemma sorted_wrt_num:
  assumes "sorted_wrt na_last_le ks" and "\<forall>x\<in>set ks. \<exists>v. x = Num v"
  shows "sorted_wrt cell_le ks"
  using assms(2) by (intro sorted_wrt_mono_rel[OF _ assms(1)]) (auto simp: na_last_le_def)


lemma column_index_mem: "c \<in> set cs \<Longrightarrow> \<exists>k. column_index c cs = Some k"
  using column_index_None[of c cs] by (cases "column_index c cs") auto

lemma column_index_snoc:
  "column_index c cs = None \<Longrightarrow> column_index c (cs @ [c]) = Some (length cs)"
  by (induction cs) (auto split: if_splits)

lemma rectangular_cleaning:
  assumes "rectangular df"
  shows "rectangular (cleaning copy_on_write df)"
  using assms cleaning_subset[of copy_on_write df]
  by (auto simp: rectangular_def list_all_iff)

lemma length_column_values:
  "column_index c (columns df) = Some k \<Longrightarrow> length (column_values df c) = length (rows df)"
  by (simp add: column_values_def)

lemma column_values_set_column_same:
  assumes "rectangular df" and "length vs = length (rows df)"
  shows "column_values (set_column df c vs) c = vs"
proof (cases "column_index c (columns df)")
  case None
  have idx: "column_index c (columns df @ [c]) = Some (length (columns df))"
    using None by (rule column_index_snoc)
  have "map (\<lambda>r. cell_at r (length (columns df))) (map (\<lambda>(r, v). r @ [v]) (zip (rows df) vs))
          = map snd (zip (rows df) vs)"
    using assms(1)
    by (auto simp: rectangular_def list_all_iff cell_at_def nth_append dest!: set_zip_leftD)
  also have "\<dots> = vs" using assms(2) by simp
  finally show ?thesis using None idx by (simp add: column_values_def set_column_def)
next
  case (Some k)
  from column_index_Some[OF Some] have k: "k < length (columns df)" by simp
  have "map (\<lambda>r. cell_at r k) (map (\<lambda>(r, v). r[k := v]) (zip (rows df) vs))
          = map snd (zip (rows df) vs)"
    using assms(1) k
    by (auto simp: rectangular_def list_all_iff cell_at_def dest!: set_zip_leftD)
  also have "\<dots> = vs" using assms(2) by simp
  finally show ?thesis using Some by (simp add: column_values_def set_column_def)
qed

lemma column_values_set_column_other:
  assumes "column_index c (columns df) = Some k" and "c \<noteq> d"
    and "rectangular df" and "length vs = length (rows df)"
  shows "column_values (set_column df d vs) c = column_values df c"
proof -
  from column_index_Some[OF assms(1)] have k: "k < length (columns df)" by simp
  have "map (\<lambda>r. cell_at r k) (rows (set_column df d vs)) = map (\<lambda>r. cell_at r k) (rows df)"
  proof (cases "column_index d (columns df)")
    case None
    have "map (\<lambda>r. cell_at r k) (map (\<lambda>(r, v). r @ [v]) (zip (rows df) vs))
            = map (\<lambda>r. cell_at r k) (map fst (zip (rows df) vs))"
      using assms(3) k
      by (auto simp: rectangular_def list_all_iff cell_at_def nth_append dest!: set_zip_leftD)
    with None assms(4) show ?thesis by (simp add: set_column_def)
  next
    case (Some j)
    have "k \<noteq> j" using column_index_neq[OF assms(1) Some assms(2)] .
    then have "map (\<lambda>r. cell_at r k) (map (\<lambda>(r, v). r[j := v]) (zip (rows df) vs))
            = map (\<lambda>r. cell_at r k) (map fst (zip (rows df) vs))"
      by (auto simp: cell_at_def)
    with Some assms(4) show ?thesis by (simp add: set_column_def)
  qed
  with set_column_index[OF assms(1,2), of vs] assms(1) show ?thesis
    by (simp add: column_values_def)
qed

lemma csv_run_body_eq:
  assumes "dataset p = Some df" and "''selling_price'' \<in> set (columns df)"
    and "column_values (cleaning copy_on_write df) ''selling_price'' = map Num vs"
  shows "CsvDataProcessor_run_body copy_on_write sort_values p
           = (case sort_values
                     (set_column (cleaning copy_on_write df) ''price_category''
                        (map (\<lambda>v. projr (price_category (Num v))) vs))
                     [''selling_price''] True of
                Inl e \<Rightarrow>
                  (Some e,
                   p\<lparr>dataset := Some (set_column (cleaning copy_on_write df) ''price_category''
                        (map (\<lambda>v. projr (price_category (Num v))) vs))\<rparr>)
              | Inr r \<Rightarrow>
                  (None,
                   p\<lparr>dataset := Some (set_column (cleaning copy_on_write df) ''price_category''
                        (map (\<lambda>v. projr (price_category (Num v))) vs)),
                     result := Some r\<rparr>))"
proof -
  from column_index_mem[OF assms(2)] obtain k where
    k: "column_index ''selling_price'' (columns df) = Some k"
    by auto
  have c: "cut_column price_bins price_labels (column_values (cleaning copy_on_write df) ''selling_price'')
             = Inr (map (\<lambda>v. projr (price_category (Num v))) vs)"
    by (simp add: assms(3) cut_column_price price_category_Num)
  show ?thesis
    by (simp add: CsvDataProcessor_run_body_def assms(1) k c Let_def sort_data_by_col_def
        split: sum.splits)
qed

text \<open>
  C3. The category that \<^verbatim>\<open>run\<close> gives to a price \<open>v\<close>: 1 exactly when \<open>0 < v \<le> 500000\<close>,
  2 exactly when \<open>500000 < v \<le> 1500000\<close>, 3 exactly when \<open>v > 1500000\<close>, and none (the
  missing marker) exactly when \<open>v \<le> 0\<close>; so 500000 gives 1, 500001 gives 2, 1500000 gives
  2, 1500001 gives 3 and 0 gives none. On a processor whose frame has the column
  \<^verbatim>\<open>selling_price\<close> and whose prices after cleaning are the numbers \<open>vs\<close>, \<^verbatim>\<open>run\<close> of
  either version leaves a frame whose column \<^verbatim>\<open>selling_price\<close> is \<open>vs\<close> and whose column
  \<^verbatim>\<open>price_category\<close> holds the category of each of them, row by row; it then returns
  with the sorted frame as Result, or with the exception of the sort.
\<close>

theorem price_category_buckets:
  "(price_category (Num v) = Inr (Num 1)) = (0 < v \<and> v \<le> 500000)
   \<and> (price_category (Num v) = Inr (Num 2)) = (500000 < v \<and> v \<le> 1500000)
   \<and> (price_category (Num v) = Inr (Num 3)) = (1500000 < v)
   \<and> (price_category (Num v) = Inr NaN) = (v \<le> 0)
   \<and> price_category (Num 500000) = Inr (Num 1)
   \<and> price_category (Num 500001) = Inr (Num 2)
   \<and> price_category (Num 1500000) = Inr (Num 2)
   \<and> price_category (Num 1500001) = Inr (Num 3)
   \<and> price_category (Num 0) = Inr NaN
   \<and> (dataset p = Some df \<and> rectangular df \<and> ''selling_price'' \<in> set (columns df)
        \<and> column_values (cleaning copy_on_write df) ''selling_price'' = map Num vs \<longrightarrow>
       (let d = set_column (cleaning copy_on_write df) ''price_category''
                  (map (\<lambda>v. projr (price_category (Num v))) vs)
        in column_values d ''selling_price'' = map Num vs
           \<and> column_values d ''price_category'' = map (\<lambda>v. projr (price_category (Num v))) vs
           \<and> CsvDataProcessor_run copy_on_write sort_values p
               = (case sort_values d [''selling_price''] True of
                    Inl e \<Rightarrow> (Some e, p\<lparr>dataset := Some d, result := Some empty_frame\<rparr>)
                  | Inr r \<Rightarrow> (None, p\<lparr>dataset := Some d, result := Some r\<rparr>))
           \<and> lab3_CsvDataProcessor_run copy_on_write sort_values p
               = (case sort_values d [''selling_price''] True of
                    Inl e \<Rightarrow> (Some e, p\<lparr>dataset := Some d\<rparr>)
                  | Inr r \<Rightarrow> (None, p\<lparr>dataset := Some d, result := Some r\<rparr>))))"
proof -
  have run: "let d = set_column (cleaning copy_on_write df) ''price_category''
                  (map (\<lambda>v. projr (price_category (Num v))) vs)
        in column_values d ''selling_price'' = map Num vs
           \<and> column_values d ''price_category'' = map (\<lambda>v. projr (price_category (Num v))) vs
           \<and> CsvDataProcessor_run copy_on_write sort_values p
               = (case sort_values d [''selling_price''] True of
                    Inl e \<Rightarrow> (Some e, p\<lparr>dataset := Some d, result := Some empty_frame\<rparr>)
                  | Inr r \<Rightarrow> (None, p\<lparr>dataset := Some d, result := Some r\<rparr>))
           \<and> lab3_CsvDataProcessor_run copy_on_write sort_values p
               = (case sort_values d [''selling_price''] True of
                    Inl e \<Rightarrow> (Some e, p\<lparr>dataset := Some d\<rparr>)
                  | Inr r \<Rightarrow> (None, p\<lparr>dataset := Some d, result := Some r\<rparr>))"
    if h: "dataset p = Some df" "rectangular df" "''selling_price'' \<in> set (columns df)"
      "column_values (cleaning copy_on_write df) ''selling_price'' = map Num vs"
  proof -
    let ?c = "cleaning copy_on_write df"
    let ?cats = "map (\<lambda>v. projr (price_category (Num v))) vs"
    from column_index_mem[OF h(3)] obtain k where
      k: "column_index ''selling_price'' (columns ?c) = Some k" by auto
    have rect: "rectangular ?c" by (rule rectangular_cleaning[OF h(2)])
    have len: "length ?cats = length (rows ?c)"
      using length_column_values[OF k] h(4) by simp
    have a: "column_values (set_column ?c ''price_category'' ?cats) ''selling_price'' = map Num vs"
      using column_values_set_column_other[OF k _ rect len] h(4) by simp
    have b: "column_values (set_column ?c ''price_category'' ?cats) ''price_category'' = ?cats"
      by (rule column_values_set_column_same[OF rect len])
    have c: "CsvDataProcessor_run copy_on_write sort_values p
               = (case sort_values (set_column ?c ''price_category'' ?cats) [''selling_price''] True of
                    Inl e \<Rightarrow> (Some e, p\<lparr>dataset := Some (set_column ?c ''price_category'' ?cats),
                                          result := Some empty_frame\<rparr>)
                  | Inr r \<Rightarrow> (None, p\<lparr>dataset := Some (set_column ?c ''price_category'' ?cats),
                                       result := Some r\<rparr>))"
      unfolding CsvDataProcessor_run_def
      using csv_run_body_eq[of "p\<lparr>result := Some empty_frame\<rparr>" df copy_on_write vs sort_values] h
      by (simp split: sum.splits)
    have d: "lab3_CsvDataProcessor_run copy_on_write sort_values p
               = (case sort_values (set_column ?c ''price_category'' ?cats) [''selling_price''] True of
                    Inl e \<Rightarrow> (Some e, p\<lparr>dataset := Some (set_column ?c ''price_category'' ?cats)\<rparr>)
                  | Inr r \<Rightarrow> (None, p\<lparr>dataset := Some (set_column ?c ''price_category'' ?cats),
                                       result := Some r\<rparr>))"
      unfolding lab3_CsvDataProcessor_run_def
      using csv_run_body_eq[of p df copy_on_write vs sort_values] h by simp
    from a b c d show ?thesis by (simp add: Let_def)
  qed
  have buckets: "(price_category (Num v) = Inr (Num 1)) = (0 < v \<and> v \<le> 500000)
   \<and> (price_category (Num v) = Inr (Num 2)) = (500000 < v \<and> v \<le> 1500000)
   \<and> (price_category (Num v) = Inr (Num 3)) = (1500000 < v)
   \<and> (price_category (Num v) = Inr NaN) = (v \<le> 0)
   \<and> price_category (Num 500000) = Inr (Num 1)
   \<and> price_category (Num 500001) = Inr (Num 2)
   \<and> price_category (Num 1500000) = Inr (Num 2)
   \<and> price_category (Num 1500001) = Inr (Num 3)
   \<and> price_category (Num 0) = Inr NaN"
    by (simp add: price_category_Num)
  from buckets run show ?thesis by blast
qed

text \<open>The model run on a frame of six rows, as \<^verbatim>\<open>read_csv\<close> would give it.\<close>

lemma cleaning_price_frame:
  "cleaning copy_on_write price_frame = \<lparr>columns = [''name'', ''selling_price''],
      rows = [[Str ''c'', Num 1500001], [Str ''a'', Num 500000],
              [Str ''z'', Num 0], [Str ''b'', Num 500001]]\<rparr>"
proof -
  have ne: "no_empty_strings price_frame"
    by (simp add: no_empty_strings_def price_frame_def cell_at_def upt_rec)
  have "cleaning copy_on_write price_frame = rowwise_dropna price_frame"
    by (cases copy_on_write)
       (simp_all add: cleaning_eq_rowwise_dropna cleaning_eq_rowwise_clean
          rowwise_clean_no_empty_strings[OF ne])
  then show ?thesis
    by (simp add: rowwise_dropna_def price_frame_def has_missing_def isna_def cell_at_def upt_rec)
qed

lemma sort_priced_frame:
  "insertion_sort_values priced_frame [''selling_price''] True = Inr priced_result"
  by (simp add: insertion_sort_values_def priced_frame_def priced_result_def is_str_def
      na_last_le_def cell_at_def)

theorem price_category_buckets_witness:
  "dataset csv_loaded = Some price_frame \<and> rectangular price_frame
   \<and> column_values (cleaning False price_frame) ''selling_price''
       = map Num [1500001, 500000, 0, 500001]
   \<and> column_values priced_frame ''price_category'' = [Num 3, Num 1, NaN, Num 2]
   \<and> CsvDataProcessor_run False insertion_sort_values csv_loaded
       = (None, csv_loaded\<lparr>dataset := Some priced_frame, result := Some priced_result\<rparr>)
   \<and> lab3_CsvDataProcessor_run False insertion_sort_values csv_loaded
       = (None, csv_loaded\<lparr>dataset := Some priced_frame, result := Some priced_result\<rparr>)
   \<and> CsvDataProcessor_run True insertion_sort_values csv_loaded
       = (None, csv_loaded\<lparr>dataset := Some priced_frame, result := Some priced_result\<rparr>)
   \<and> lab3_CsvDataProcessor_run True insertion_sort_values csv_loaded
       = (None, csv_loaded\<lparr>dataset := Some priced_frame, result := Some priced_result\<rparr>)"
proof -
  have d: "dataset csv_loaded = Some price_frame"
    by (simp add: csv_loaded_def)
  have r: "rectangular price_frame"
    by (simp add: rectangular_def price_frame_def)
  have m: "''selling_price'' \<in> set (columns price_frame)"
    by (simp add: price_frame_def)
  have c: "column_values (cleaning copy_on_write price_frame) ''selling_price''
       = map Num [1500001, 500000, 0, 500001]" for copy_on_write
    by (simp add: cleaning_price_frame column_values_def cell_at_def)
  have f: "set_column (cleaning copy_on_write price_frame) ''price_category''
             [Num 3, Num 1, NaN, Num 2]
           = priced_frame" for copy_on_write
    by (simp add: cleaning_price_frame set_column_def priced_frame_def)
  note s = sort_priced_frame
  from price_category_buckets [of 0 csv_loaded price_frame False "[1500001, 500000, 0, 500001]"
      insertion_sort_values] d r m c [of False]
  have a: "column_values priced_frame ''price_category'' = [Num 3, Num 1, NaN, Num 2]
     \<and> CsvDataProcessor_run False insertion_sort_values csv_loaded
       = (None, csv_loaded\<lparr>dataset := Some priced_frame, result := Some priced_result\<rparr>)
     \<and> lab3_CsvDataProcessor_run False insertion_sort_values csv_loaded
       = (None, csv_loaded\<lparr>dataset := Some priced_frame, result := Some priced_result\<rparr>)"
    by (simp add: Let_def f s price_category_Num)
  from price_category_buckets [of 0 csv_loaded price_frame True "[1500001, 500000, 0, 500001]"
      insertion_sort_values] d r m c [of True]
  have b: "CsvDataProcessor_run True insertion_sort_values csv_loaded
       = (None, csv_loaded\<lparr>dataset := Some priced_frame, result := Some priced_result\<rparr>)
     \<and> lab3_CsvDataProcessor_run True insertion_sort_values csv_loaded
       = (None, csv_loaded\<lparr>dataset := Some priced_frame, result := Some priced_result\<rparr>)"
    by (simp add: Let_def f s price_category_Num)
  from d r c [of False] a b show ?thesis by simp
qed

section \<open>The order of the Result\<close>

text \<open>
  The insertion sort meets the contract of \<^verbatim>\<open>sort_values\<close>, so the contract can be met.
\<close>

lemma na_last_le_total:
  "\<not> is_str a \<Longrightarrow> \<not> is_str b \<Longrightarrow> na_last_le a b \<or> na_last_le b a"
  by (cases a; cases b) (auto simp: na_last_le_def is_str_def)

lemma na_last_le_trans:
  "\<not> is_str b \<Longrightarrow> na_last_le a b \<Longrightarrow> na_last_le b c \<Longrightarrow> na_last_le a c"
  by (cases a; cases b; cases c) (auto simp: na_last_le_def is_str_def)

lemma mset_insert_row: "mset (insert_row k r xs) = add_mset r (mset xs)"
  by (induction xs) auto

lemma mset_insertion_sort: "mset (insertion_sort k rs) = mset rs"
  by (induction rs) (auto simp: mset_insert_row)

lemma set_insert_row: "set (insert_row k r xs) = insert r (set xs)"
  by (induction xs) auto

lemma set_insertion_sort: "set (insertion_sort k rs) = set rs"
  by (induction rs) (auto simp: set_insert_row)

lemma sorted_insert_row:
  assumes "\<not> is_str (cell_at r k)" and "\<forall>x\<in>set xs. \<not> is_str (cell_at x k)"
    and "sorted_wrt (\<lambda>a b. na_last_le (cell_at a k) (cell_at b k)) xs"
  shows "sorted_wrt (\<lambda>a b. na_last_le (cell_at a k) (cell_at b k)) (insert_row k r xs)"
  using assms
proof (induction xs)
  case Nil
  then show ?case by simp
next
  case (Cons x xs)
  show ?case
  proof (cases "na_last_le (cell_at r k) (cell_at x k)")
    case True
    have "\<forall>y\<in>set xs. na_last_le (cell_at r k) (cell_at y k)"
      using True Cons.prems na_last_le_trans[of "cell_at x k" "cell_at r k"] by auto
    with True Cons.prems show ?thesis by simp
  next
    case False
    then have xr: "na_last_le (cell_at x k) (cell_at r k)"
      using na_last_le_total[of "cell_at r k" "cell_at x k"] Cons.prems by auto
    have "sorted_wrt (\<lambda>a b. na_last_le (cell_at a k) (cell_at b k)) (insert_row k r xs)"
      using Cons by simp
    with False xr Cons.prems show ?thesis by (auto simp: set_insert_row)
  qed
qed

lemma sorted_insertion_sort:
  assumes "\<forall>x\<in>set rs. \<not> is_str (cell_at x k)"
  shows "sorted_wrt (\<lambda>a b. na_last_le (cell_at a k) (cell_at b k)) (insertion_sort k rs)"
  using assms
  by (induction rs) (auto intro!: sorted_insert_row simp: set_insertion_sort)

lemma insertion_sort_values_contract: "sort_values_contract insertion_sort_values"
  unfolding sort_values_contract_def
proof (intro allI impI)
  fix df c df'
  assume a: "insertion_sort_values df [c] True = Inr df'"
  then obtain k where k: "column_index c (columns df) = Some k"
    by (auto simp: insertion_sort_values_def split: option.splits)
  from a k have ns: "\<forall>x\<in>set (rows df). \<not> is_str (cell_at x k)"
    and d: "df' = df\<lparr>rows := insertion_sort k (rows df)\<rparr>"
    by (auto simp: insertion_sort_values_def list_ex_iff split: if_splits)
  from k have "c \<in> set (columns df)"
    using column_index_None[of c "columns df"] by auto
  moreover have "sorted_wrt na_last_le (column_values df' c)"
    using sorted_insertion_sort[OF ns] k d by (simp add: column_values_def sorted_wrt_map)
  ultimately show "c \<in> set (columns df) \<and> columns df' = columns df
      \<and> mset (rows df') = mset (rows df) \<and> sorted_wrt na_last_le (column_values df' c)"
    using d by (simp add: mset_insertion_sort)
qed

lemma txt_run_sorted:
  assumes "sort_values_contract sort_values"
    and "TxtDataProcessor_run sort_values p = (None, p')"
  shows "\<exists>df r. dataset p = Some df \<and> p' = p\<lparr>result := Some r\<rparr>
           \<and> columns r = columns df \<and> mset (rows r) = mset (rows df)
           \<and> sorted_wrt na_last_le (column_values r ''selling_price'')"
proof -
  from assms(2) obtain df r where d: "dataset p = Some df"
    and s: "sort_values df [''selling_price''] True = Inr r"
    and p': "p' = p\<lparr>result := Some r\<rparr>"
    by (auto simp: TxtDataProcessor_run_def sort_data_by_col_def split: option.splits sum.splits)
  from assms(1) s have "columns r = columns df \<and> mset (rows r) = mset (rows df)
      \<and> sorted_wrt na_last_le (column_values r ''selling_price'')"
    unfolding sort_values_contract_def by blast
  with d p' show ?thesis by blast
qed

text \<open>
  What the source adds to the sort. When \<^verbatim>\<open>sort_values\<close> does what pandas promises for
  it and the prices sorted are numbers, the Result of \<^verbatim>\<open>run\<close> holds the rows of the frame,
  rearranged, and every pair of adjacent rows \<open>(a, b)\<close> has
  \<open>a[selling_price] \<le> b[selling_price]\<close>: in the TXT variant for a frame of numeric
  prices, in the CSV variant (either version) for the cleaned and categorised frame. The
  order among rows of equal price is decided by the sorting algorithm of the library and
  is not settled by these lemmas.
\<close>

lemma sorted_column_numbers:
  assumes "sort_values_contract sort_values"
    and "sort_values d [c] True = Inr r"
    and "column_values d c = map Num vs"
  shows "columns r = columns d \<and> mset (rows r) = mset (rows d)
       \<and> mset (column_values r c) = mset (map Num vs)
       \<and> successively cell_le (column_values r c)"
proof -
  from assms(1,2) have ct: "c \<in> set (columns d)" "columns r = columns d"
      "mset (rows r) = mset (rows d)" "sorted_wrt na_last_le (column_values r c)"
    unfolding sort_values_contract_def by blast+
  from column_index_mem[OF ct(1)] obtain k where k: "column_index c (columns d) = Some k"
    by auto
  have "mset (column_values r c) = image_mset (\<lambda>x. cell_at x k) (mset (rows r))"
    using k ct(2) by (simp add: column_values_def)
  also have "\<dots> = mset (column_values d c)"
    using k ct(3) by (simp add: column_values_def)
  finally have m: "mset (column_values r c) = mset (map Num vs)"
    using assms(3) by simp
  then have "set (column_values r c) = set (map Num vs)" by (rule mset_eq_setD)
  then have "\<forall>x\<in>set (column_values r c). \<exists>v. x = Num v" by auto
  from sorted_wrt_num[OF ct(4) this] have "successively cell_le (column_values r c)"
    by (rule successively_if_sorted_wrt)
  with ct(2,3) m show ?thesis by simp
qed

lemma txt_run_numbers_sorted:
  assumes "sort_values_contract sort_values"
    and "TxtDataProcessor_run sort_values p = (None, p')"
    and "dataset p = Some df"
    and "column_values df ''selling_price'' = map Num vs"
  shows "\<exists>r. result p' = Some r \<and> mset (rows r) = mset (rows df)
           \<and> successively cell_le (column_values r ''selling_price'')"
proof -
  from assms(2,3) obtain r where s: "sort_values df [''selling_price''] True = Inr r"
    and p': "p' = p\<lparr>result := Some r\<rparr>"
    by (auto simp: TxtDataProcessor_run_def sort_data_by_col_def split: sum.splits)
  have sc: "columns r = columns df \<and> mset (rows r) = mset (rows df)
       \<and> mset (column_values r ''selling_price'') = mset (map Num vs)
       \<and> successively cell_le (column_values r ''selling_price'')"
    using assms(1) s assms(4)
    by (rule sorted_column_numbers[where sort_values = sort_values and d = df and r = r
          and c = "''selling_price''" and vs = vs])
  have m: "mset (rows r) = mset (rows df)"
    by (rule sc[THEN conjunct2, THEN conjunct1])
  have o: "successively cell_le (column_values r ''selling_price'')"
    by (rule sc[THEN conjunct2, THEN conjunct2, THEN conjunct2])
  from p' have "result p' = Some r" by simp
  with m o show ?thesis by (intro exI[of _ r] conjI)
qed

lemma csv_run_sorted:
  assumes "sort_values_contract sort_values"
    and "dataset p = Some df" and "rectangular df"
    and "''selling_price'' \<in> set (columns df)"
    and "column_values (cleaning copy_on_write df) ''selling_price'' = map Num vs"
    and "CsvDataProcessor_run copy_on_write sort_values p = (None, p')
           \<or> lab3_CsvDataProcessor_run copy_on_write sort_values p = (None, p')"
  shows "\<exists>d r. dataset p' = Some d \<and> result p' = Some r \<and> mset (rows r) = mset (rows d)
           \<and> successively cell_le (column_values r ''selling_price'')"
proof -
  let ?d = "set_column (cleaning copy_on_write df) ''price_category''
              (map (\<lambda>v. projr (price_category (Num v))) vs)"
  from column_index_mem[OF assms(4)] obtain k where
    k: "column_index ''selling_price'' (columns (cleaning copy_on_write df)) = Some k" by auto
  have rect: "rectangular (cleaning copy_on_write df)" by (rule rectangular_cleaning[OF assms(3)])
  have len: "length (map (\<lambda>v. projr (price_category (Num v))) vs)
               = length (rows (cleaning copy_on_write df))"
    using length_column_values[OF k] assms(5) by simp
  have col: "column_values ?d ''selling_price'' = map Num vs"
    using column_values_set_column_other[OF k _ rect len] assms(5) by simp
  have e1: "CsvDataProcessor_run copy_on_write sort_values p
               = (case sort_values ?d [''selling_price''] True of
                    Inl e \<Rightarrow> (Some e, p\<lparr>dataset := Some ?d, result := Some empty_frame\<rparr>)
                  | Inr r \<Rightarrow> (None, p\<lparr>dataset := Some ?d, result := Some r\<rparr>))"
    unfolding CsvDataProcessor_run_def
    using csv_run_body_eq[of "p\<lparr>result := Some empty_frame\<rparr>" df copy_on_write vs sort_values]
      assms(2,4,5)
    by (simp split: sum.splits)
  have e2: "lab3_CsvDataProcessor_run copy_on_write sort_values p
               = (case sort_values ?d [''selling_price''] True of
                    Inl e \<Rightarrow> (Some e, p\<lparr>dataset := Some ?d\<rparr>)
                  | Inr r \<Rightarrow> (None, p\<lparr>dataset := Some ?d, result := Some r\<rparr>))"
    unfolding lab3_CsvDataProcessor_run_def
    using csv_run_body_eq[of p df copy_on_write vs sort_values] assms(2,4,5) by simp
  have body: "\<exists>r. sort_values ?d [''selling_price''] True = Inr r
                \<and> dataset p' = Some ?d \<and> result p' = Some r"
  proof (cases "sort_values ?d [''selling_price''] True")
    case (Inl e)
    with e1 e2 assms(6) show ?thesis by simp
  next
    case (Inr r)
    with e1 e2 assms(6) have "p' = p\<lparr>dataset := Some ?d, result := Some r\<rparr>" by auto
    with Inr show ?thesis by simp
  qed
  then obtain r where r: "sort_values ?d [''selling_price''] True = Inr r"
    "dataset p' = Some ?d" "result p' = Some r" by blast
  have sc: "columns r = columns ?d \<and> mset (rows r) = mset (rows ?d)
       \<and> mset (column_values r ''selling_price'') = mset (map Num vs)
       \<and> successively cell_le (column_values r ''selling_price'')"
    using assms(1) r(1) col
    by (rule sorted_column_numbers[where sort_values = sort_values and r = r
          and c = "''selling_price''" and vs = vs])
  have m: "mset (rows r) = mset (rows ?d)"
    by (rule sc[THEN conjunct2, THEN conjunct1])
  have o: "successively cell_le (column_values r ''selling_price'')"
    by (rule sc[THEN conjunct2, THEN conjunct2, THEN conjunct2])
  from r(2,3) m o show ?thesis by (intro exI[of _ ?d] exI[of _ r] conjI)
qed

section \<open>Properties of get_mean_value_by_filter\<close>




lemma nanmean_string: "list_ex is_str cs \<Longrightarrow> \<exists>e. nanmean cs = Inl e"
  by (simp add: nanmean_def)



text \<open>
  Where the method does not return: the exception of \<^verbatim>\<open>query\<close> leaves it as it is, and a
  string among the selected rows makes the mean raise.
\<close>

lemma column_means_string:
  "\<exists>cs\<in>set css. list_ex is_str cs \<Longrightarrow> \<exists>e. column_means css = Inl e"
proof (induction css)
  case Nil
  then show ?case by simp
next
  case (Cons cs css)
  show ?case
  proof (cases "list_ex is_str cs")
    case True
    then show ?thesis by (simp add: nanmean_def)
  next
    case False
    with Cons.prems have "\<exists>cs\<in>set css. list_ex is_str cs" by simp
    from Cons.IH[OF this] obtain e where "column_means css = Inl e" by blast
    then show ?thesis by (simp split: sum.splits)
  qed
qed

lemma get_mean_value_by_filter_raises:
  "query df filter_expr = Inl e \<Longrightarrow> get_mean_value_by_filter query df filter_expr = Inl e"
  "query df filter_expr = Inr selected \<Longrightarrow> \<not> no_strings selected
     \<Longrightarrow> \<exists>e. get_mean_value_by_filter query df filter_expr = Inl e"
proof -
  show "get_mean_value_by_filter query df filter_expr = Inl e"
    if "query df filter_expr = Inl e"
    using that by (simp add: get_mean_value_by_filter_def)
next
  assume q: "query df filter_expr = Inr selected" and s: "\<not> no_strings selected"
  from s have "\<exists>cs\<in>set (map (\<lambda>i. map (\<lambda>r. cell_at r i) (rows selected))
                    [0..<length (columns selected)]). list_ex is_str cs"
    by (auto simp: no_strings_def list_all_iff list_ex_iff)
  from column_means_string[OF this] obtain e where
    "column_means (map (\<lambda>i. map (\<lambda>r. cell_at r i) (rows selected))
        [0..<length (columns selected)]) = Inl e" by blast
  with q show "\<exists>e. get_mean_value_by_filter query df filter_expr = Inl e"
    by (simp add: get_mean_value_by_filter_def mean_to_frame_T_def)
qed




end
